theory Spec2Isabelle
  imports Complex_Main "HOL-Library.Word"
begin

unbundle bit_operations_syntax

section \<open>Constants of the transcriber (class declaration)\<close>

text \<open>
  The \<open>static constexpr\<close> members of \<open>WhisperTranscriber\<close>. \<open>kTargetSamples\<close> is a
  byte count (twelve seconds of 16-bit samples), \<open>kSilenceSamples\<close> is the literal 16000.
\<close>

definition kSampleRate :: nat where
  "kSampleRate = 16000"

definition kTargetDurationSeconds :: nat where
  "kTargetDurationSeconds = 3"

definition kRingBufferSizeIncrement :: nat where
  "kRingBufferSizeIncrement = kSampleRate * kTargetDurationSeconds * 2 * 10"

definition kTargetSamples :: nat where
  "kTargetSamples = kSampleRate * 12 * 2"

definition kSilenceSamples :: nat where
  "kSilenceSamples = 16000"

text \<open>
  The thresholds local to \<open>ProcessAudioBuffer\<close>. The source writes them as \<open>float\<close>
  literals (\<open>0.1f\<close>, \<open>0.1f * 1.2f\<close>, \<open>0.1f * 0.8f\<close>); they are taken here at their decimal
  values, from which the binary32 values differ by less than \<open>10^-8\<close>. The average
  amplitude is a real number. Each threshold is multiplied by the amplitude it is compared
  with, so the comparison only needs the thresholds to lie strictly between 0 and 1.
\<close>

definition relativeThreshold :: real where
  "relativeThreshold = 0.1"

definition voiceStartThreshold :: real where
  "voiceStartThreshold = relativeThreshold * 1.2"

definition voiceEndThreshold :: real where
  "voiceEndThreshold = relativeThreshold * 0.8"

section \<open>Bytes, 16-bit samples and float samples\<close>

type_synonym uint8 = "8 word"
type_synonym int16 = "16 word"

text \<open>
  \<open>(int16_t)(b[i]) | ((int16_t)(b[i + 1]) << 8)\<close>: both operands are promoted to \<open>int\<close>,
  the result is narrowed to 16 bits.
\<close>

definition pcm16_sample :: "uint8 \<Rightarrow> uint8 \<Rightarrow> int16" where
  "pcm16_sample lo hi = word_of_int (uint lo OR push_bit 8 (uint hi))"

text \<open>\<open>sample & 0xFF\<close> and \<open>(sample >> 8) & 0xFF\<close> on the promoted signed value.\<close>

definition sample_lo :: "int16 \<Rightarrow> uint8" where
  "sample_lo s = word_of_int (sint s AND 255)"

definition sample_hi :: "int16 \<Rightarrow> uint8" where
  "sample_hi s = word_of_int (drop_bit 8 (sint s) AND 255)"

text \<open>
  The first loop of \<open>ProcessAudioBuffer\<close> (and the loop of the dispatched task): one
  sample for every two bytes. On a block of odd length the last iteration reads
  \<open>playoutBuffer[i + 1]\<close> past the block; that is \<open>None\<close> here.
\<close>

fun int16Buffer_of :: "uint8 list \<Rightarrow> int16 list option" where
  "int16Buffer_of [] = Some []"
| "int16Buffer_of [b] = None"
| "int16Buffer_of (lo # hi # rest) =
     (case int16Buffer_of rest of
        None \<Rightarrow> None
      | Some samples \<Rightarrow> Some (pcm16_sample lo hi # samples))"

text \<open>The second loop of \<open>ProcessAudioBuffer\<close>: the samples written back as bytes.\<close>

fun currentBuffer_of :: "int16 list \<Rightarrow> uint8 list" where
  "currentBuffer_of [] = []"
| "currentBuffer_of (s # rest) = sample_lo s # sample_hi s # currentBuffer_of rest"

text \<open>
  A \<open>float\<close> sample, as far as the validation of \<open>TranscribeAudioNonBlocking\<close> can tell
  values apart: not-a-number, the two infinities, or a finite value. \<open>float_eq\<close>,
  \<open>float_abs\<close> and \<open>float_gt\<close> are \<open>==\<close>, \<open>std::abs\<close> and \<open>>\<close> of IEEE arithmetic.
\<close>

datatype float = NaN | PosInf | NegInf | Finite real

fun float_eq :: "float \<Rightarrow> float \<Rightarrow> bool" where
  "float_eq NaN _ = False"
| "float_eq _ NaN = False"
| "float_eq PosInf PosInf = True"
| "float_eq NegInf NegInf = True"
| "float_eq (Finite x) (Finite y) = (x = y)"
| "float_eq _ _ = False"

fun float_abs :: "float \<Rightarrow> float" where
  "float_abs NaN = NaN"
| "float_abs PosInf = PosInf"
| "float_abs NegInf = PosInf"
| "float_abs (Finite x) = Finite \<bar>x\<bar>"

fun float_gt :: "float \<Rightarrow> float \<Rightarrow> bool" where
  "float_gt NaN _ = False"
| "float_gt _ NaN = False"
| "float_gt PosInf PosInf = False"
| "float_gt PosInf _ = True"
| "float_gt _ PosInf = False"
| "float_gt NegInf _ = False"
| "float_gt (Finite x) NegInf = True"
| "float_gt (Finite x) (Finite y) = (x > y)"

text \<open>
  \<open>sample / 32768.0f\<close> for a 16-bit sample: the quotient is a multiple of \<open>2^-15\<close> of
  magnitude at most 1, which binary32 represents exactly.
\<close>

definition normalize :: "int16 \<Rightarrow> float" where
  "normalize sample = Finite (real_of_int (sint sample) / 32768)"

definition pcmf32_of :: "uint8 list \<Rightarrow> float list option" where
  "pcmf32_of localAudioBuffer = map_option (map normalize) (int16Buffer_of localAudioBuffer)"

section \<open>The ring buffer\<close>

text \<open>
  Modelled from the spec: \<open>AudioRingBuffer\<close> is declared in \<open>whisper_helpers.h\<close>, which
  is not among the sources. The spec gives its contract: \<open>write\<close> appends the bytes, or
  fails without writing anything when the free space is too small; \<open>read\<close> returns and
  consumes up to the requested number of unread bytes and fails when there are none;
  \<open>availableToRead\<close> is the number of unread bytes; growing adds the increment to the
  capacity and keeps the unread bytes. Its \<open>write\<close> and \<open>read\<close> are \<open>rb_write\<close> and
  \<open>rb_read\<close> here.
\<close>

record AudioRingBuffer =
  capacity :: nat
  unread :: "uint8 list"

definition availableToRead :: "AudioRingBuffer \<Rightarrow> nat" where
  "availableToRead rb = length (unread rb)"

definition rb_write :: "uint8 list \<Rightarrow> AudioRingBuffer \<Rightarrow> bool \<times> AudioRingBuffer" where
  "rb_write bytes rb =
     (if length (unread rb) + length bytes \<le> capacity rb
      then (True, rb\<lparr>unread := unread rb @ bytes\<rparr>)
      else (False, rb))"

definition rb_read :: "nat \<Rightarrow> AudioRingBuffer \<Rightarrow> bool \<times> uint8 list \<times> AudioRingBuffer" where
  "rb_read maxLen rb =
     (if unread rb = [] then (False, [], rb)
      else (True, take maxLen (unread rb), rb\<lparr>unread := drop maxLen (unread rb)\<rparr>))"

definition increaseWith :: "nat \<Rightarrow> AudioRingBuffer \<Rightarrow> AudioRingBuffer" where
  "increaseWith increment rb = rb\<lparr>capacity := capacity rb + increment\<rparr>"

section \<open>The transcriber's state\<close>

text \<open>
  The data members the operations below touch. \<open>whisperContext\<close> tells whether the
  context pointer is non-null. \<open>taskQueue\<close> holds the byte blocks captured by the
  closures handed to the task pool, \<open>engineCalls\<close> the sample blocks passed to
  \<open>whisper_full\<close>, both in order. The \<open>size_t\<close> counters are natural numbers.
\<close>

record WhisperTranscriber =
  whisperContext :: bool
  audioBuffer :: AudioRingBuffer
  running :: bool
  processingActive :: bool
  accumulatedByteBuffer :: "uint8 list"
  overflowCount :: nat
  inVoiceSegment :: bool
  samplesSinceVoiceStart :: nat
  silentSamplesCount :: nat
  taskQueue :: "uint8 list list"
  engineCalls :: "float list list"

text \<open>The state the constructor leaves, given whether a model was loaded.\<close>

definition constructed :: "bool \<Rightarrow> WhisperTranscriber" where
  "constructed loaded =
     \<lparr>whisperContext = loaded,
      audioBuffer = \<lparr>capacity = kRingBufferSizeIncrement, unread = []\<rparr>,
      running = False,
      processingActive = False,
      accumulatedByteBuffer = [],
      overflowCount = 0,
      inVoiceSegment = False,
      samplesSinceVoiceStart = 0,
      silentSamplesCount = 0,
      taskQueue = [],
      engineCalls = []\<rparr>"

section \<open>handleOverflow and the flush\<close>

definition handleOverflow :: "WhisperTranscriber \<Rightarrow> WhisperTranscriber" where
  "handleOverflow st =
     (let st1 = st\<lparr>overflowCount := overflowCount st + 1\<rparr>
      in if overflowCount st1 > 10
         then st1\<lparr>audioBuffer := increaseWith kRingBufferSizeIncrement (audioBuffer st1),
                  overflowCount := 0\<rparr>
         else st1)"

text \<open>
  \<open>if (!_audioBuffer.write(_accumulatedByteBuffer.data(), n)) handleOverflow();\<close>
  as both flush sites have it.
\<close>

definition flush :: "nat \<Rightarrow> WhisperTranscriber \<Rightarrow> WhisperTranscriber" where
  "flush n st =
     (case rb_write (take n (accumulatedByteBuffer st)) (audioBuffer st) of
        (ok, rb) \<Rightarrow>
          if ok then st\<lparr>audioBuffer := rb\<rparr>
          else handleOverflow (st\<lparr>audioBuffer := rb\<rparr>))"

text \<open>The \<open>erase\<close>-or-\<open>clear\<close> that follows each flush.\<close>

definition keepRemainder :: "nat \<Rightarrow> WhisperTranscriber \<Rightarrow> WhisperTranscriber" where
  "keepRemainder n st =
     (if length (accumulatedByteBuffer st) > n
      then st\<lparr>accumulatedByteBuffer := drop n (accumulatedByteBuffer st),
              samplesSinceVoiceStart := length (drop n (accumulatedByteBuffer st))\<rparr>
      else st\<lparr>accumulatedByteBuffer := [], samplesSinceVoiceStart := 0\<rparr>)"

section \<open>ProcessAudioBuffer\<close>

text \<open>
  The voice decision. \<open>SilenceFinder\<close> (\<open>silence_finder.h\<close>) is not among the sources,
  so the average amplitude it leaves in \<open>avgAmplitude\<close> is an argument.
\<close>

definition voicePresent :: "real \<Rightarrow> bool \<Rightarrow> bool" where
  "voicePresent avgAmplitude inVoice =
     (if avgAmplitude = 0 then False
      else let thresholdAmplitude = avgAmplitude
           in if \<not> inVoice
              then thresholdAmplitude > voiceStartThreshold * thresholdAmplitude
              else thresholdAmplitude > voiceEndThreshold * thresholdAmplitude)"

text \<open>The head of the \<open>voicePresent\<close> branch: the onset and the reset of the silence count.\<close>

definition startVoice :: "WhisperTranscriber \<Rightarrow> WhisperTranscriber" where
  "startVoice st =
     (let st1 = if \<not> inVoiceSegment st
                then st\<lparr>inVoiceSegment := True, samplesSinceVoiceStart := 0\<rparr>
                else st
      in st1\<lparr>silentSamplesCount := 0\<rparr>)"

text \<open>The rest of the \<open>voicePresent\<close> branch: append, count, flush at the target size.\<close>

definition accumulate :: "uint8 list \<Rightarrow> WhisperTranscriber \<Rightarrow> WhisperTranscriber" where
  "accumulate currentBuffer st =
     (let st1 = st\<lparr>accumulatedByteBuffer := accumulatedByteBuffer st @ currentBuffer,
                   samplesSinceVoiceStart := samplesSinceVoiceStart st + length currentBuffer\<rparr>
      in if length (accumulatedByteBuffer st1) \<ge> kTargetSamples
         then keepRemainder kTargetSamples (flush kTargetSamples st1)
         else st1)"

text \<open>The \<open>else\<close> branch: count the quiet bytes, end the segment at the silence count.\<close>

definition quietBlock :: "uint8 list \<Rightarrow> WhisperTranscriber \<Rightarrow> WhisperTranscriber" where
  "quietBlock currentBuffer st =
     (let st1 = st\<lparr>silentSamplesCount := silentSamplesCount st + length currentBuffer\<rparr>
      in if inVoiceSegment st1 \<and> silentSamplesCount st1 \<ge> kSilenceSamples
         then
           (let st2 = st1\<lparr>inVoiceSegment := False\<rparr>;
                st3 = if length (accumulatedByteBuffer st2) \<ge> kTargetSamples
                         \<or> length (accumulatedByteBuffer st2) \<ge> kSampleRate * 2
                      then (let samplesTo = min (length (accumulatedByteBuffer st2)) kTargetSamples
                            in keepRemainder samplesTo (flush samplesTo st2))
                      else st2
            in st3\<lparr>silentSamplesCount := 0\<rparr>)
         else st1)"

definition ProcessAudioBuffer ::
  "real \<Rightarrow> uint8 list \<Rightarrow> WhisperTranscriber \<Rightarrow> WhisperTranscriber option" where
  "ProcessAudioBuffer avgAmplitude playoutBuffer st =
     (case int16Buffer_of playoutBuffer of
        None \<Rightarrow> None
      | Some int16Buffer \<Rightarrow>
          (let currentBuffer = currentBuffer_of int16Buffer
           in if voicePresent avgAmplitude (inVoiceSegment st)
              then Some (accumulate currentBuffer (startVoice st))
              else Some (quietBlock currentBuffer st)))"

section \<open>TranscribeAudioNonBlocking\<close>

definition invalidSample :: "float \<Rightarrow> bool" where
  "invalidSample sample = (\<not> float_eq sample sample \<or> float_gt (float_abs sample) (Finite 1))"

text \<open>The validation loop: it stops at the first invalid sample.\<close>

fun validInput :: "float list \<Rightarrow> bool" where
  "validInput [] = True"
| "validInput (sample # rest) = (if invalidSample sample then False else validInput rest)"

text \<open>
  The engine call \<open>whisper_full\<close> is an argument: it maps the samples to a result code.
  The statistics the function only logs, and the clean-up and hand-over of the
  transcribed text to the speech device, touch none of the state above and are left out.
\<close>

definition TranscribeAudioNonBlocking ::
  "(float list \<Rightarrow> int) \<Rightarrow> float list \<Rightarrow> WhisperTranscriber \<Rightarrow> bool \<times> WhisperTranscriber" where
  "TranscribeAudioNonBlocking whisper_full pcmf32 st =
     (if processingActive st then (False, st)
      else
        (let st1 = st\<lparr>processingActive := True\<rparr>
         in if \<not> whisperContext st1 then (False, st1\<lparr>processingActive := False\<rparr>)
            else if pcmf32 = [] then (False, st1\<lparr>processingActive := False\<rparr>)
            else if length pcmf32 < kSampleRate \<or> length pcmf32 > kTargetSamples
                 then (False, st1\<lparr>processingActive := False\<rparr>)
            else if \<not> validInput pcmf32 then (False, st1\<lparr>processingActive := False\<rparr>)
            else if \<not> whisperContext st1 then (False, st1)
            else
              (let result = whisper_full pcmf32;
                   st2 = st1\<lparr>engineCalls := engineCalls st1 @ [pcmf32]\<rparr>
               in (result = 0, st2\<lparr>processingActive := False\<rparr>))))"

section \<open>The processing thread\<close>

text \<open>The closure handed to the task pool, run on its captured byte block.\<close>

definition task ::
  "(float list \<Rightarrow> int) \<Rightarrow> uint8 list \<Rightarrow> WhisperTranscriber \<Rightarrow> WhisperTranscriber" where
  "task whisper_full localAudioBuffer st =
     (if whisperContext st \<and> localAudioBuffer \<noteq> []
      then if length localAudioBuffer mod 2 \<noteq> 0 then st
           else (case pcmf32_of localAudioBuffer of
                   None \<Rightarrow> st
                 | Some pcmf32 \<Rightarrow> snd (TranscribeAudioNonBlocking whisper_full pcmf32 st))
      else st)"

text \<open>The \<open>while\<close> loop of \<open>RunProcessingThread\<close>.\<close>

function drain :: "WhisperTranscriber \<Rightarrow> WhisperTranscriber" where
  "drain st =
     (if running st \<and> availableToRead (audioBuffer st) > 0
      then (case rb_read (availableToRead (audioBuffer st)) (audioBuffer st) of
              (ok, bytes, rb) \<Rightarrow>
                drain (if ok then st\<lparr>audioBuffer := rb, taskQueue := taskQueue st @ [bytes]\<rparr>
                       else st\<lparr>audioBuffer := rb\<rparr>))
      else st)"
  by pat_completeness auto
termination
  by (relation "measure (\<lambda>st. availableToRead (audioBuffer st))")
     (auto simp: rb_read_def availableToRead_def split: if_splits)

declare drain.simps [simp del]

definition RunProcessingThread :: "WhisperTranscriber \<Rightarrow> bool \<times> WhisperTranscriber" where
  "RunProcessingThread st = (True, drain st)"

text \<open>
  The body of the thread that \<open>Start\<close> spawns: \<open>while (RunProcessingThread()) {}\<close>.
  \<open>None\<close> is the loop that never exits.
\<close>

partial_function (option) processingThread :: "WhisperTranscriber \<Rightarrow> WhisperTranscriber option" where
  "processingThread st =
     (case RunProcessingThread st of
        (continue, st') \<Rightarrow> if continue then processingThread st' else Some st')"

text \<open>
  \<open>Stop\<close>: clear the flag, join the thread, clear the accumulated bytes. The join returns
  when the thread body does.
\<close>

definition Stop :: "WhisperTranscriber \<Rightarrow> WhisperTranscriber option" where
  "Stop st =
     (if running st
      then (case processingThread (st\<lparr>running := False\<rparr>) of
              None \<Rightarrow> None
            | Some st' \<Rightarrow> Some (st'\<lparr>accumulatedByteBuffer := []\<rparr>))
      else Some st)"

section \<open>Example states\<close>

text \<open>
  States used to run the operations on concrete inputs: a transcriber with a loaded model
  after one voiced block of a single sample (amplitude 10000), and after one voiced block
  of one second of audio (16000 samples of value 257).
\<close>

definition voicedOnce :: WhisperTranscriber where
  "voicedOnce = the (ProcessAudioBuffer 10000 [0x10, 0x27] (constructed True))"

definition voicedSecond :: WhisperTranscriber where
  "voicedSecond = the (ProcessAudioBuffer 257 (replicate 32000 1) (constructed True))"

text \<open>
  Successive calls of \<open>ProcessAudioBuffer\<close>, each with its block and the average
  amplitude found for it.
\<close>

fun processBlocks ::
  "(real \<times> uint8 list) list \<Rightarrow> WhisperTranscriber \<Rightarrow> WhisperTranscriber option" where
  "processBlocks [] st = Some st"
| "processBlocks ((avgAmplitude, playoutBuffer) # rest) st =
     (case ProcessAudioBuffer avgAmplitude playoutBuffer st of
        None \<Rightarrow> None
      | Some st' \<Rightarrow> processBlocks rest st')"

text \<open>
  A transcriber whose ring buffer already holds two unread segments of the target size,
  and the same after ten counted overflows.
\<close>

definition twoSegmentsQueued :: WhisperTranscriber where
  "twoSegmentsQueued =
     (constructed True)\<lparr>audioBuffer :=
        \<lparr>capacity = kRingBufferSizeIncrement, unread = replicate 768000 1\<rparr>\<rparr>"

definition tenOverflows :: WhisperTranscriber where
  "tenOverflows = twoSegmentsQueued\<lparr>overflowCount := 10\<rparr>"

text \<open>A transcriber with a transcription in flight.\<close>

definition busy :: WhisperTranscriber where
  "busy = (constructed True)\<lparr>processingActive := True\<rparr>"

text \<open>Two engines: one that always succeeds and one that always fails.\<close>

definition engineOk :: "float list \<Rightarrow> int" where
  "engineOk pcmf32 = 0"

definition engineFails :: "float list \<Rightarrow> int" where
  "engineFails pcmf32 = 1"

section \<open>Samples and blocks\<close>

lemma int255: "(255::int) = mask 8"
  by (simp add: mask_eq_exp_minus_1)

lemma sample_lo_pcm16 [simp]: "sample_lo (pcm16_sample lo hi) = lo"
  unfolding sample_lo_def pcm16_sample_def int255
  by (rule bit_word_eqI) (auto simp add: bit_simps)

lemma sample_hi_pcm16 [simp]: "sample_hi (pcm16_sample lo hi) = hi"
  unfolding sample_hi_def pcm16_sample_def int255
  by (rule bit_word_eqI) (auto simp add: bit_simps dest: bit_imp_le_length)

lemma pcm16_word_cat: "pcm16_sample lo hi = word_cat hi lo"
  unfolding pcm16_sample_def
  by (rule bit_word_eqI) (auto simp add: bit_simps dest: bit_imp_le_length)

lemma int16Buffer_of_even:
  "even (length bytes) \<Longrightarrow>
     \<exists>samples. int16Buffer_of bytes = Some samples \<and> currentBuffer_of samples = bytes
        \<and> 2 * length samples = length bytes"
  by (induction bytes rule: int16Buffer_of.induct) auto

lemma int16Buffer_of_odd: "odd (length bytes) \<Longrightarrow> int16Buffer_of bytes = None"
  by (induction bytes rule: int16Buffer_of.induct) auto

lemma ProcessAudioBuffer_even:
  assumes "even (length playoutBuffer)"
  shows "ProcessAudioBuffer avgAmplitude playoutBuffer st =
           Some (if voicePresent avgAmplitude (inVoiceSegment st)
                 then accumulate playoutBuffer (startVoice st)
                 else quietBlock playoutBuffer st)"
proof -
  from int16Buffer_of_even [OF assms] obtain samples where
    "int16Buffer_of playoutBuffer = Some samples" "currentBuffer_of samples = playoutBuffer"
    by blast
  then show ?thesis by (simp add: ProcessAudioBuffer_def)
qed

lemma ProcessAudioBuffer_Some_even:
  "ProcessAudioBuffer avgAmplitude playoutBuffer st = Some st' \<Longrightarrow> even (length playoutBuffer)"
  using int16Buffer_of_odd [of playoutBuffer]
  by (cases "even (length playoutBuffer)") (auto simp: ProcessAudioBuffer_def)

lemma voicePresent_iff: "voicePresent avgAmplitude inVoice \<longleftrightarrow> avgAmplitude > 0"
  by (auto simp: voicePresent_def voiceStartThreshold_def voiceEndThreshold_def
      relativeThreshold_def Let_def)


section \<open>The voice segmenter and the accumulator\<close>

lemma handleOverflow_fields [simp]:
  "inVoiceSegment (handleOverflow st) = inVoiceSegment st"
  "silentSamplesCount (handleOverflow st) = silentSamplesCount st"
  "samplesSinceVoiceStart (handleOverflow st) = samplesSinceVoiceStart st"
  "accumulatedByteBuffer (handleOverflow st) = accumulatedByteBuffer st"
  "unread (audioBuffer (handleOverflow st)) = unread (audioBuffer st)"
  by (simp_all add: handleOverflow_def Let_def increaseWith_def)

lemma flush_fields [simp]:
  "inVoiceSegment (flush n st) = inVoiceSegment st"
  "silentSamplesCount (flush n st) = silentSamplesCount st"
  "samplesSinceVoiceStart (flush n st) = samplesSinceVoiceStart st"
  "accumulatedByteBuffer (flush n st) = accumulatedByteBuffer st"
  by (simp_all add: flush_def rb_write_def split: prod.splits)

lemma flush_room:
  "length (unread (audioBuffer st)) + length (take n (accumulatedByteBuffer st))
     \<le> capacity (audioBuffer st) \<Longrightarrow>
   flush n st = st\<lparr>audioBuffer := (audioBuffer st)\<lparr>unread :=
                     unread (audioBuffer st) @ take n (accumulatedByteBuffer st)\<rparr>\<rparr>"
  by (simp add: flush_def rb_write_def)

lemma flush_full:
  "\<not> length (unread (audioBuffer st)) + length (take n (accumulatedByteBuffer st))
     \<le> capacity (audioBuffer st) \<Longrightarrow>
   flush n st = handleOverflow st"
  by (simp add: flush_def rb_write_def)

lemma keepRemainder_fields [simp]:
  "inVoiceSegment (keepRemainder n st) = inVoiceSegment st"
  "silentSamplesCount (keepRemainder n st) = silentSamplesCount st"
  "audioBuffer (keepRemainder n st) = audioBuffer st"
  "overflowCount (keepRemainder n st) = overflowCount st"
  "accumulatedByteBuffer (keepRemainder n st) = drop n (accumulatedByteBuffer st)"
  "samplesSinceVoiceStart (keepRemainder n st) = length (accumulatedByteBuffer st) - n"
  by (simp_all add: keepRemainder_def)

lemma accumulate_fields:
  "inVoiceSegment (accumulate cur st) = inVoiceSegment st"
  "silentSamplesCount (accumulate cur st) = silentSamplesCount st"
  by (simp_all add: accumulate_def Let_def)

lemma accumulate_below:
  "length (accumulatedByteBuffer st) + length cur < kTargetSamples \<Longrightarrow>
   accumulate cur st =
     st\<lparr>accumulatedByteBuffer := accumulatedByteBuffer st @ cur,
        samplesSinceVoiceStart := samplesSinceVoiceStart st + length cur\<rparr>"
  by (simp add: accumulate_def Let_def)

lemma accumulate_target:
  "kTargetSamples \<le> length (accumulatedByteBuffer st) + length cur \<Longrightarrow>
   accumulate cur st =
     keepRemainder kTargetSamples
       (flush kTargetSamples
          (st\<lparr>accumulatedByteBuffer := accumulatedByteBuffer st @ cur,
              samplesSinceVoiceStart := samplesSinceVoiceStart st + length cur\<rparr>))"
  by (simp add: accumulate_def Let_def)

text \<open>
  Claim C1. A block processed in the Silence state whose average amplitude is nonzero and
  exceeds the start threshold moves the segmenter to Voice: \<open>samplesSinceVoiceStart\<close> is
  reset to zero and \<open>silentSamplesCount\<close> is cleared, and the block is accumulated from
  that state. After the block the segmenter is in Voice, \<open>silentSamplesCount\<close> is zero, and
  \<open>samplesSinceVoiceStart\<close> holds what was counted from zero (the block's bytes, or the
  remainder kept by a flush at the target size), whatever it held before.
\<close>
theorem silence_to_voice:
  assumes "even (length playoutBuffer)"
    and "\<not> inVoiceSegment st"
    and "avgAmplitude \<noteq> 0"
    and "avgAmplitude > voiceStartThreshold * avgAmplitude"
  shows "\<exists>st'. ProcessAudioBuffer avgAmplitude playoutBuffer st = Some st'
           \<and> st' = accumulate playoutBuffer
                     (st\<lparr>inVoiceSegment := True, samplesSinceVoiceStart := 0,
                         silentSamplesCount := 0\<rparr>)
           \<and> inVoiceSegment st'
           \<and> silentSamplesCount st' = 0
           \<and> samplesSinceVoiceStart st' =
               (if kTargetSamples \<le> length (accumulatedByteBuffer st) + length playoutBuffer
                then length (accumulatedByteBuffer st) + length playoutBuffer - kTargetSamples
                else length playoutBuffer)"
proof -
  let ?st0 = "st\<lparr>inVoiceSegment := True, samplesSinceVoiceStart := 0, silentSamplesCount := 0\<rparr>"
  have vp: "voicePresent avgAmplitude (inVoiceSegment st)"
    using assms(2-4) by (simp add: voicePresent_def)
  have sv: "startVoice st = ?st0"
    using assms(2) by (simp add: startVoice_def)
  have run: "ProcessAudioBuffer avgAmplitude playoutBuffer st = Some (accumulate playoutBuffer ?st0)"
    using ProcessAudioBuffer_even [OF assms(1)] vp sv by simp
  have cnt: "samplesSinceVoiceStart (accumulate playoutBuffer ?st0) =
               (if kTargetSamples \<le> length (accumulatedByteBuffer st) + length playoutBuffer
                then length (accumulatedByteBuffer st) + length playoutBuffer - kTargetSamples
                else length playoutBuffer)"
  proof (cases "kTargetSamples \<le> length (accumulatedByteBuffer st) + length playoutBuffer")
    case True
    then show ?thesis by (simp add: accumulate_target)
  next
    case False
    then show ?thesis by (simp add: accumulate_below)
  qed
  show ?thesis
    using run cnt by (simp add: accumulate_fields)
qed


theorem silence_to_voice_witness:
  "even (length [0x10, 0x27 :: uint8]) \<and> \<not> inVoiceSegment (constructed True)
   \<and> (10000 :: real) \<noteq> 0 \<and> (10000 :: real) > voiceStartThreshold * 10000
   \<and> (\<exists>st'. ProcessAudioBuffer 10000 [0x10, 0x27] (constructed True) = Some st'
          \<and> inVoiceSegment st' \<and> silentSamplesCount st' = 0
          \<and> samplesSinceVoiceStart st' = 2)"
  using silence_to_voice [of "[0x10, 0x27]" "constructed True" 10000]
  by (simp add: constructed_def voiceStartThreshold_def relativeThreshold_def
      kTargetSamples_def kSampleRate_def)

lemma quietBlock_continue:
  "\<not> (inVoiceSegment st \<and> kSilenceSamples \<le> silentSamplesCount st + length cur) \<Longrightarrow>
   quietBlock cur st = st\<lparr>silentSamplesCount := silentSamplesCount st + length cur\<rparr>"
  by (auto simp add: quietBlock_def Let_def)

lemma quietBlock_end_short:
  "inVoiceSegment st \<Longrightarrow> kSilenceSamples \<le> silentSamplesCount st + length cur \<Longrightarrow>
   length (accumulatedByteBuffer st) < kSampleRate * 2 \<Longrightarrow>
   quietBlock cur st = st\<lparr>inVoiceSegment := False, silentSamplesCount := 0\<rparr>"
  by (simp add: quietBlock_def Let_def kTargetSamples_def)

lemma quietBlock_end_flush:
  "inVoiceSegment st \<Longrightarrow> kSilenceSamples \<le> silentSamplesCount st + length cur \<Longrightarrow>
   kSampleRate * 2 \<le> length (accumulatedByteBuffer st) \<Longrightarrow>
   quietBlock cur st =
     (keepRemainder (min (length (accumulatedByteBuffer st)) kTargetSamples)
        (flush (min (length (accumulatedByteBuffer st)) kTargetSamples)
           (st\<lparr>silentSamplesCount := silentSamplesCount st + length cur,
               inVoiceSegment := False\<rparr>)))\<lparr>silentSamplesCount := 0\<rparr>"
  by (simp add: quietBlock_def Let_def)

lemma quietBlock_inVoice:
  "inVoiceSegment (quietBlock cur st) \<longleftrightarrow>
     inVoiceSegment st \<and> silentSamplesCount st + length cur < kSilenceSamples"
  by (auto simp add: quietBlock_def Let_def)


lemma voicedOnce_eq:
  "voicedOnce = (constructed True)\<lparr>inVoiceSegment := True, samplesSinceVoiceStart := 2,
      accumulatedByteBuffer := [0x10, 0x27]\<rparr>"
  by (simp add: voicedOnce_def ProcessAudioBuffer_even voicePresent_iff startVoice_def
      accumulate_def constructed_def kTargetSamples_def kSampleRate_def)



lemma processBlocks_append:
  "processBlocks (blocks @ later) st =
     (case processBlocks blocks st of None \<Rightarrow> None | Some st' \<Rightarrow> processBlocks later st')"
  by (induction blocks arbitrary: st) (auto split: option.splits)

lemma quiet_blocks_counted:
  assumes "inVoiceSegment st" and "even (length block)"
    and "silentSamplesCount st + n * length block < kSilenceSamples"
  shows "processBlocks (replicate n (0, block)) st =
           Some (st\<lparr>silentSamplesCount := silentSamplesCount st + n * length block\<rparr>)"
  using assms
proof (induction n arbitrary: st)
  case 0
  then show ?case by simp
next
  case (Suc n)
  let ?st1 = "st\<lparr>silentSamplesCount := silentSamplesCount st + length block\<rparr>"
  have small: "silentSamplesCount st + length block < kSilenceSamples"
    using Suc.prems(3) by simp
  have step: "ProcessAudioBuffer 0 block st = Some ?st1"
    using Suc.prems(2) small
    by (simp add: ProcessAudioBuffer_even voicePresent_iff quietBlock_continue)
  have "processBlocks (replicate n (0, block)) ?st1 =
      Some (?st1\<lparr>silentSamplesCount := silentSamplesCount ?st1 + n * length block\<rparr>)"
    using Suc.prems by (intro Suc.IH) simp_all
  then show ?case
    using step by (simp add: add.assoc)
qed

text \<open>
  Claim C3, which the code does not meet. \<open>silentSamplesCount\<close> is advanced by the byte
  length of each quiet block and compared with \<open>kSilenceSamples\<close> = 16000, which the class
  declaration comments as one second of silence at 16 kHz. From the Voice state with a
  silence count of zero, forty-nine quiet blocks of 320 bytes (160 samples, 10 ms each)
  leave the segment open and the fiftieth ends it: the debounce is over after 8000
  samples, half a second. A single quiet block of 16000 bytes, again 8000 samples, ends
  the segment as well.
\<close>
theorem silence_debounce_half_second:
  "inVoiceSegment voicedOnce \<and> silentSamplesCount voicedOnce = 0
   \<and> map_option length (int16Buffer_of (replicate 320 0)) = Some 160
   \<and> map_option inVoiceSegment
        (processBlocks (replicate 49 (0, replicate 320 0)) voicedOnce) = Some True
   \<and> map_option inVoiceSegment
        (processBlocks (replicate 50 (0, replicate 320 0)) voicedOnce) = Some False
   \<and> (50 * 160 :: nat) = 8000 \<and> 2 * (8000 :: nat) = kSampleRate
   \<and> map_option length (int16Buffer_of (replicate 16000 0)) = Some 8000
   \<and> map_option inVoiceSegment (ProcessAudioBuffer 0 (replicate 16000 0) voicedOnce) = Some False"
proof -
  have len: "map_option length (int16Buffer_of (replicate (2 * k) 0)) = Some k" for k
  proof -
    obtain samples where "int16Buffer_of (replicate (2 * k) 0) = Some samples"
      "2 * length samples = length (replicate (2 * k) (0 :: uint8))"
      using int16Buffer_of_even [of "replicate (2 * k) 0"] by auto
    then show ?thesis by simp
  qed
  have v: "inVoiceSegment voicedOnce" "silentSamplesCount voicedOnce = 0"
    by (simp_all add: voicedOnce_eq constructed_def)
  have run49: "processBlocks (replicate 49 (0, replicate 320 0)) voicedOnce =
      Some (voicedOnce\<lparr>silentSamplesCount := 15680\<rparr>)"
    using quiet_blocks_counted [of voicedOnce "replicate 320 0" 49] v
    by (simp add: kSilenceSamples_def)
  have last: "map_option inVoiceSegment
      (ProcessAudioBuffer 0 (replicate 320 0) (voicedOnce\<lparr>silentSamplesCount := 15680\<rparr>))
        = Some False"
    using v by (simp add: ProcessAudioBuffer_even voicePresent_iff quietBlock_inVoice
        kSilenceSamples_def)
  have split: "replicate 50 (0 :: real, replicate 320 (0 :: uint8)) =
      replicate 49 (0, replicate 320 0) @ [(0, replicate 320 0)]"
    using replicate_add [of 49 1 "(0 :: real, replicate 320 (0 :: uint8))"] by simp
  have run50: "map_option inVoiceSegment
      (processBlocks (replicate 50 (0, replicate 320 0)) voicedOnce) = Some False"
    unfolding split processBlocks_append run49
    using last by (auto split: option.splits)
  have one: "map_option inVoiceSegment (ProcessAudioBuffer 0 (replicate 16000 0) voicedOnce)
      = Some False"
    using v by (simp add: ProcessAudioBuffer_even voicePresent_iff quietBlock_inVoice
        kSilenceSamples_def)
  show ?thesis
    using v run49 run50 one len [of 160] len [of 8000]
    by (simp add: kSampleRate_def)
qed

lemma flush_ignores_segment_state:
  "audioBuffer (flush n (st\<lparr>silentSamplesCount := c, inVoiceSegment := b\<rparr>)) = audioBuffer (flush n st)"
  "overflowCount (flush n (st\<lparr>silentSamplesCount := c, inVoiceSegment := b\<rparr>)) = overflowCount (flush n st)"
  by (simp_all add: flush_def rb_write_def handleOverflow_def Let_def)

text \<open>
  Claim C4, as amended. When a quiet block ends the voice segment and the accumulated
  length is at least one second of audio (\<open>kSampleRate * 2\<close> bytes), the first
  min(accumulated length, \<open>kTargetSamples\<close>) accumulated bytes are flushed (appended to the
  ring buffer when it has room) and dropped from the accumulated buffer. When the
  accumulated length is below that floor nothing is flushed and the accumulated buffer
  is left as it is.
\<close>
theorem segment_end_flush:
  assumes "even (length playoutBuffer)"
    and "inVoiceSegment st"
    and "\<not> voicePresent avgAmplitude True"
    and "kSilenceSamples \<le> silentSamplesCount st + length playoutBuffer"
  shows "\<exists>st'. ProcessAudioBuffer avgAmplitude playoutBuffer st = Some st'
           \<and> \<not> inVoiceSegment st'
           \<and> (kSampleRate * 2 \<le> length (accumulatedByteBuffer st) \<longrightarrow>
                audioBuffer st' =
                  audioBuffer (flush (min (length (accumulatedByteBuffer st)) kTargetSamples) st)
                \<and> overflowCount st' =
                  overflowCount (flush (min (length (accumulatedByteBuffer st)) kTargetSamples) st)
                \<and> accumulatedByteBuffer st' =
                  drop (min (length (accumulatedByteBuffer st)) kTargetSamples)
                    (accumulatedByteBuffer st)
                \<and> (length (unread (audioBuffer st))
                      + min (length (accumulatedByteBuffer st)) kTargetSamples
                      \<le> capacity (audioBuffer st) \<longrightarrow>
                    unread (audioBuffer st') =
                      unread (audioBuffer st)
                      @ take (min (length (accumulatedByteBuffer st)) kTargetSamples)
                          (accumulatedByteBuffer st)))
           \<and> (length (accumulatedByteBuffer st) < kSampleRate * 2 \<longrightarrow>
                audioBuffer st' = audioBuffer st
                \<and> overflowCount st' = overflowCount st
                \<and> accumulatedByteBuffer st' = accumulatedByteBuffer st)"
proof -
  let ?n = "min (length (accumulatedByteBuffer st)) kTargetSamples"
  have run: "ProcessAudioBuffer avgAmplitude playoutBuffer st = Some (quietBlock playoutBuffer st)"
    using ProcessAudioBuffer_even [OF assms(1), of avgAmplitude st] assms(2,3) by simp
  have off: "\<not> inVoiceSegment (quietBlock playoutBuffer st)"
    using assms(4) by (simp add: quietBlock_inVoice)
  have short: "length (accumulatedByteBuffer st) < kSampleRate * 2 \<Longrightarrow>
      audioBuffer (quietBlock playoutBuffer st) = audioBuffer st
      \<and> overflowCount (quietBlock playoutBuffer st) = overflowCount st
      \<and> accumulatedByteBuffer (quietBlock playoutBuffer st) = accumulatedByteBuffer st"
    using assms(2,4) by (simp add: quietBlock_end_short)
  have long: "kSampleRate * 2 \<le> length (accumulatedByteBuffer st) \<Longrightarrow>
      audioBuffer (quietBlock playoutBuffer st) = audioBuffer (flush ?n st)
      \<and> overflowCount (quietBlock playoutBuffer st) = overflowCount (flush ?n st)
      \<and> accumulatedByteBuffer (quietBlock playoutBuffer st) = drop ?n (accumulatedByteBuffer st)"
    using assms(2,4) by (simp add: quietBlock_end_flush flush_ignores_segment_state)
  have room: "length (unread (audioBuffer st)) + ?n \<le> capacity (audioBuffer st) \<Longrightarrow>
      unread (audioBuffer (flush ?n st)) = unread (audioBuffer st) @ take ?n (accumulatedByteBuffer st)"
    by (subst flush_room) simp_all
  show ?thesis
    using run off short long room by auto
qed


lemma voicedSecond_eq:
  "voicedSecond = (constructed True)\<lparr>inVoiceSegment := True, samplesSinceVoiceStart := 32000,
      accumulatedByteBuffer := replicate 32000 1\<rparr>"
  by (simp add: voicedSecond_def ProcessAudioBuffer_even voicePresent_iff startVoice_def
      accumulate_def constructed_def kTargetSamples_def kSampleRate_def)

theorem segment_end_flush_witness:
  "even (length (replicate 16000 (0 :: uint8)))
   \<and> inVoiceSegment voicedSecond \<and> inVoiceSegment voicedOnce
   \<and> \<not> voicePresent 0 True
   \<and> kSilenceSamples \<le> silentSamplesCount voicedSecond + length (replicate 16000 (0 :: uint8))
   \<and> kSilenceSamples \<le> silentSamplesCount voicedOnce + length (replicate 16000 (0 :: uint8))
   \<and> kSampleRate * 2 \<le> length (accumulatedByteBuffer voicedSecond)
   \<and> length (unread (audioBuffer voicedSecond))
        + min (length (accumulatedByteBuffer voicedSecond)) kTargetSamples
        \<le> capacity (audioBuffer voicedSecond)
   \<and> length (accumulatedByteBuffer voicedOnce) < kSampleRate * 2
   \<and> (\<exists>st'. ProcessAudioBuffer 0 (replicate 16000 0) voicedSecond = Some st'
          \<and> \<not> inVoiceSegment st'
          \<and> unread (audioBuffer st') = replicate 32000 1
          \<and> accumulatedByteBuffer st' = [])
   \<and> (\<exists>st'. ProcessAudioBuffer 0 (replicate 16000 0) voicedOnce = Some st'
          \<and> \<not> inVoiceSegment st'
          \<and> audioBuffer st' = audioBuffer voicedOnce
          \<and> accumulatedByteBuffer st' = accumulatedByteBuffer voicedOnce)"
proof -
  have a: "even (length (replicate 16000 (0 :: uint8)))" by simp
  have q: "\<not> voicePresent 0 True" by (simp add: voicePresent_iff)
  have b2: "inVoiceSegment voicedSecond"
    "kSilenceSamples \<le> silentSamplesCount voicedSecond + length (replicate 16000 (0 :: uint8))"
    by (simp_all add: voicedSecond_eq constructed_def kSilenceSamples_def)
  have b1: "inVoiceSegment voicedOnce"
    "kSilenceSamples \<le> silentSamplesCount voicedOnce + length (replicate 16000 (0 :: uint8))"
    by (simp_all add: voicedOnce_eq constructed_def kSilenceSamples_def)
  have c2: "kSampleRate * 2 \<le> length (accumulatedByteBuffer voicedSecond)"
    "min (length (accumulatedByteBuffer voicedSecond)) kTargetSamples = 32000"
    "length (unread (audioBuffer voicedSecond)) + 32000 \<le> capacity (audioBuffer voicedSecond)"
    "unread (audioBuffer voicedSecond) = []"
    "accumulatedByteBuffer voicedSecond = replicate 32000 1"
    by (simp_all add: voicedSecond_eq constructed_def kSampleRate_def kTargetSamples_def
        kRingBufferSizeIncrement_def kTargetDurationSeconds_def)
  have c1: "length (accumulatedByteBuffer voicedOnce) < kSampleRate * 2"
    by (simp add: voicedOnce_eq kSampleRate_def)
  show ?thesis
    using segment_end_flush [OF a b2(1) q b2(2)] segment_end_flush [OF a b1(1) q b1(2)]
      a q b1 b2 c1 c2
    by auto
qed

text \<open>
  The claim as stated fails: a segment that ends with two accumulated bytes flushes
  nothing and still holds those two bytes afterwards.
\<close>

theorem short_fragment_is_kept:
  "map_option inVoiceSegment (ProcessAudioBuffer 0 (replicate 16000 0) voicedOnce) = Some False
   \<and> map_option accumulatedByteBuffer (ProcessAudioBuffer 0 (replicate 16000 0) voicedOnce)
       = Some [0x10, 0x27]"
  by (simp add: ProcessAudioBuffer_even voicePresent_iff voicedOnce_eq constructed_def
      quietBlock_end_short kSilenceSamples_def kSampleRate_def)

text \<open>
  Claim C5. When a voiced block brings the accumulated buffer to the target size, the
  flush carries exactly the first \<open>kTargetSamples\<close> accumulated bytes: they are appended
  to the ring buffer when it has room, and \<open>handleOverflow\<close> runs instead when it has not.
  Exactly the remainder, accumulated length minus \<open>kTargetSamples\<close>, is kept as the new
  accumulated buffer, and the segmenter stays in Voice.
\<close>
theorem target_size_flush:
  assumes "even (length playoutBuffer)"
    and "voicePresent avgAmplitude (inVoiceSegment st)"
    and "kTargetSamples \<le> length (accumulatedByteBuffer st) + length playoutBuffer"
  shows "\<exists>st'. ProcessAudioBuffer avgAmplitude playoutBuffer st = Some st'
           \<and> inVoiceSegment st'
           \<and> length (take kTargetSamples (accumulatedByteBuffer st @ playoutBuffer)) = kTargetSamples
           \<and> accumulatedByteBuffer st' =
               drop kTargetSamples (accumulatedByteBuffer st @ playoutBuffer)
           \<and> length (accumulatedByteBuffer st') =
               length (accumulatedByteBuffer st) + length playoutBuffer - kTargetSamples
           \<and> samplesSinceVoiceStart st' = length (accumulatedByteBuffer st')
           \<and> (length (unread (audioBuffer st)) + kTargetSamples \<le> capacity (audioBuffer st) \<longrightarrow>
                audioBuffer st' = (audioBuffer st)\<lparr>unread := unread (audioBuffer st)
                    @ take kTargetSamples (accumulatedByteBuffer st @ playoutBuffer)\<rparr>
                \<and> overflowCount st' = overflowCount st)
           \<and> (\<not> length (unread (audioBuffer st)) + kTargetSamples \<le> capacity (audioBuffer st) \<longrightarrow>
                audioBuffer st' = audioBuffer (handleOverflow st)
                \<and> overflowCount st' = overflowCount (handleOverflow st)
                \<and> unread (audioBuffer st') = unread (audioBuffer st))"
proof -
  define all where "all = accumulatedByteBuffer st @ playoutBuffer"
  define st1 where "st1 = (startVoice st)\<lparr>accumulatedByteBuffer := all,
      samplesSinceVoiceStart := samplesSinceVoiceStart (startVoice st) + length playoutBuffer\<rparr>"
  have big: "kTargetSamples \<le> length all"
    using assms(3) by (simp add: all_def)
  have acc: "accumulatedByteBuffer (startVoice st) = accumulatedByteBuffer st"
    "audioBuffer (startVoice st) = audioBuffer st"
    "overflowCount (startVoice st) = overflowCount st"
    "inVoiceSegment (startVoice st)"
    by (simp_all add: startVoice_def Let_def)
  have st1: "accumulatedByteBuffer st1 = all" "audioBuffer st1 = audioBuffer st"
    "overflowCount st1 = overflowCount st" "inVoiceSegment st1"
    by (simp_all add: st1_def acc)
  have run: "ProcessAudioBuffer avgAmplitude playoutBuffer st =
      Some (keepRemainder kTargetSamples (flush kTargetSamples st1))"
    using ProcessAudioBuffer_even [OF assms(1), of avgAmplitude st] assms(2,3)
    by (simp add: accumulate_target acc st1_def all_def)
  have len: "length (take kTargetSamples all) = kTargetSamples"
    using big by simp
  have rest: "length (drop kTargetSamples all) =
      length (accumulatedByteBuffer st) + length playoutBuffer - kTargetSamples"
    by (simp add: all_def)
  have hov: "audioBuffer (handleOverflow st1) = audioBuffer (handleOverflow st)"
    "overflowCount (handleOverflow st1) = overflowCount (handleOverflow st)"
    by (simp_all add: handleOverflow_def Let_def st1)
  have room: "length (unread (audioBuffer st)) + kTargetSamples \<le> capacity (audioBuffer st) \<Longrightarrow>
      flush kTargetSamples st1 =
        st1\<lparr>audioBuffer := (audioBuffer st)\<lparr>unread := unread (audioBuffer st)
            @ take kTargetSamples all\<rparr>\<rparr>"
    using len by (subst flush_room) (simp_all add: st1)
  have full: "\<not> length (unread (audioBuffer st)) + kTargetSamples \<le> capacity (audioBuffer st) \<Longrightarrow>
      flush kTargetSamples st1 = handleOverflow st1"
    using len by (subst flush_full) (simp_all add: st1)
  have post: "inVoiceSegment (keepRemainder kTargetSamples (flush kTargetSamples st1))"
    "accumulatedByteBuffer (keepRemainder kTargetSamples (flush kTargetSamples st1))
       = drop kTargetSamples all"
    "samplesSinceVoiceStart (keepRemainder kTargetSamples (flush kTargetSamples st1))
       = length (drop kTargetSamples all)"
    by (simp_all add: st1)
  have bufs: "length (unread (audioBuffer st)) + kTargetSamples \<le> capacity (audioBuffer st) \<Longrightarrow>
      audioBuffer (keepRemainder kTargetSamples (flush kTargetSamples st1)) =
        (audioBuffer st)\<lparr>unread := unread (audioBuffer st) @ take kTargetSamples all\<rparr>
      \<and> overflowCount (keepRemainder kTargetSamples (flush kTargetSamples st1)) = overflowCount st"
    by (simp add: room st1)
  have lost: "\<not> length (unread (audioBuffer st)) + kTargetSamples \<le> capacity (audioBuffer st) \<Longrightarrow>
      audioBuffer (keepRemainder kTargetSamples (flush kTargetSamples st1)) =
        audioBuffer (handleOverflow st)
      \<and> overflowCount (keepRemainder kTargetSamples (flush kTargetSamples st1)) =
        overflowCount (handleOverflow st)
      \<and> unread (audioBuffer (keepRemainder kTargetSamples (flush kTargetSamples st1))) =
        unread (audioBuffer st)"
    by (simp add: full hov)
  show ?thesis
  proof (cases "length (unread (audioBuffer st)) + kTargetSamples \<le> capacity (audioBuffer st)")
    case True
    show ?thesis
      unfolding run all_def [symmetric]
      using len rest post bufs [OF True] True by simp
  next
    case False
    show ?thesis
      unfolding run all_def [symmetric]
      using len rest post lost [OF False] False by simp
  qed
qed


theorem target_size_flush_witness:
  "even (length (replicate 384002 (1 :: uint8)))
   \<and> voicePresent 257 (inVoiceSegment (constructed True))
   \<and> voicePresent 257 (inVoiceSegment twoSegmentsQueued)
   \<and> kTargetSamples
        \<le> length (accumulatedByteBuffer (constructed True)) + length (replicate 384002 (1 :: uint8))
   \<and> kTargetSamples
        \<le> length (accumulatedByteBuffer twoSegmentsQueued) + length (replicate 384002 (1 :: uint8))
   \<and> length (unread (audioBuffer (constructed True))) + kTargetSamples
        \<le> capacity (audioBuffer (constructed True))
   \<and> \<not> length (unread (audioBuffer twoSegmentsQueued)) + kTargetSamples
        \<le> capacity (audioBuffer twoSegmentsQueued)
   \<and> (\<exists>st'. ProcessAudioBuffer 257 (replicate 384002 1) (constructed True) = Some st'
          \<and> inVoiceSegment st'
          \<and> unread (audioBuffer st') = replicate 384000 1
          \<and> accumulatedByteBuffer st' = [1, 1]
          \<and> samplesSinceVoiceStart st' = 2)
   \<and> (\<exists>st'. ProcessAudioBuffer 257 (replicate 384002 1) twoSegmentsQueued = Some st'
          \<and> inVoiceSegment st'
          \<and> unread (audioBuffer st') = replicate 768000 1
          \<and> overflowCount st' = 1
          \<and> accumulatedByteBuffer st' = [1, 1])"
proof -
  have a: "even (length (replicate 384002 (1 :: uint8)))" by simp
  have v: "voicePresent 257 (inVoiceSegment (constructed True))"
    "voicePresent 257 (inVoiceSegment twoSegmentsQueued)"
    by (simp_all add: voicePresent_iff)
  have k: "kTargetSamples = 384000" "kRingBufferSizeIncrement = 960000"
    by (simp_all add: kTargetSamples_def kRingBufferSizeIncrement_def kSampleRate_def
        kTargetDurationSeconds_def)
  have two: "replicate 2 (1 :: uint8) = [1, 1]"
    by (simp add: numeral_2_eq_2)
  have c: "accumulatedByteBuffer (constructed True) = []"
    "unread (audioBuffer (constructed True)) = []"
    "capacity (audioBuffer (constructed True)) = 960000"
    "accumulatedByteBuffer twoSegmentsQueued = []"
    "unread (audioBuffer twoSegmentsQueued) = replicate 768000 1"
    "capacity (audioBuffer twoSegmentsQueued) = 960000"
    "overflowCount twoSegmentsQueued = 0"
    by (simp_all add: constructed_def twoSegmentsQueued_def k)
  have g1: "kTargetSamples
        \<le> length (accumulatedByteBuffer (constructed True)) + length (replicate 384002 (1 :: uint8))"
    by (simp add: c k)
  have g2: "kTargetSamples
        \<le> length (accumulatedByteBuffer twoSegmentsQueued) + length (replicate 384002 (1 :: uint8))"
    by (simp add: c k)
  have h: "overflowCount (handleOverflow twoSegmentsQueued) = 1"
    by (simp add: handleOverflow_def Let_def c)
  show ?thesis
    using target_size_flush [OF a v(1) g1] target_size_flush [OF a v(2) g2] a v g1 g2 h
    by (auto simp add: c k two)
qed


section \<open>Overflow count and ring buffer capacity\<close>

lemma handleOverflow_count:
  "overflowCount st < 10 \<Longrightarrow> handleOverflow st = st\<lparr>overflowCount := overflowCount st + 1\<rparr>"
  by (simp add: handleOverflow_def Let_def)

lemma handleOverflow_grow:
  "10 \<le> overflowCount st \<Longrightarrow>
   handleOverflow st =
     st\<lparr>overflowCount := overflowCount st + 1,
        audioBuffer := increaseWith kRingBufferSizeIncrement (audioBuffer st),
        overflowCount := 0\<rparr>"
  by (simp add: handleOverflow_def Let_def)

lemma handleOverflow_iterate:
  "k \<le> 10 \<Longrightarrow> overflowCount st = 0 \<Longrightarrow> (handleOverflow ^^ k) st = st\<lparr>overflowCount := k\<rparr>"
proof (induction k)
  case 0
  then show ?case by simp
next
  case (Suc k)
  then have "(handleOverflow ^^ k) st = st\<lparr>overflowCount := k\<rparr>" by simp
  moreover have "overflowCount (st\<lparr>overflowCount := k\<rparr>) < 10"
    using Suc.prems by simp
  ultimately show ?case
    by (simp add: handleOverflow_count)
qed

lemma handleOverflow_capacity:
  "capacity (audioBuffer (handleOverflow st)) = capacity (audioBuffer st)
   \<or> (capacity (audioBuffer (handleOverflow st)) = capacity (audioBuffer st) + kRingBufferSizeIncrement
      \<and> 10 \<le> overflowCount st \<and> overflowCount (handleOverflow st) = 0)"
  by (simp add: handleOverflow_def Let_def increaseWith_def)

lemma flush_capacity:
  "capacity (audioBuffer (flush n st)) = capacity (audioBuffer st)
   \<or> (capacity (audioBuffer (flush n st)) = capacity (audioBuffer st) + kRingBufferSizeIncrement
      \<and> 10 \<le> overflowCount st \<and> overflowCount (flush n st) = 0)"
proof (cases "length (unread (audioBuffer st)) + length (take n (accumulatedByteBuffer st))
       \<le> capacity (audioBuffer st)")
  case True
  show ?thesis
    unfolding flush_room [OF True] by simp
next
  case False
  show ?thesis
    unfolding flush_full [OF False] by (rule handleOverflow_capacity)
qed

lemma accumulate_capacity:
  "capacity (audioBuffer (accumulate cur st)) = capacity (audioBuffer st)
   \<or> (capacity (audioBuffer (accumulate cur st)) = capacity (audioBuffer st) + kRingBufferSizeIncrement
      \<and> 10 \<le> overflowCount st \<and> overflowCount (accumulate cur st) = 0)"
proof (cases "kTargetSamples \<le> length (accumulatedByteBuffer st) + length cur")
  case True
  show ?thesis
    using flush_capacity [of kTargetSamples
        "st\<lparr>accumulatedByteBuffer := accumulatedByteBuffer st @ cur,
            samplesSinceVoiceStart := samplesSinceVoiceStart st + length cur\<rparr>"]
    by (simp add: accumulate_target [OF True])
next
  case False
  then show ?thesis by (simp add: accumulate_below)
qed

lemma quietBlock_capacity:
  "capacity (audioBuffer (quietBlock cur st)) = capacity (audioBuffer st)
   \<or> (capacity (audioBuffer (quietBlock cur st)) = capacity (audioBuffer st) + kRingBufferSizeIncrement
      \<and> 10 \<le> overflowCount st \<and> overflowCount (quietBlock cur st) = 0)"
proof (cases "inVoiceSegment st \<and> kSilenceSamples \<le> silentSamplesCount st + length cur")
  case False
  then show ?thesis by (simp add: quietBlock_continue)
next
  case True
  show ?thesis
  proof (cases "kSampleRate * 2 \<le> length (accumulatedByteBuffer st)")
    case long: True
    show ?thesis
      using flush_capacity [of "min (length (accumulatedByteBuffer st)) kTargetSamples"
          "st\<lparr>silentSamplesCount := silentSamplesCount st + length cur, inVoiceSegment := False\<rparr>"]
        True long
      by (simp add: quietBlock_end_flush)
  next
    case short: False
    then show ?thesis using True by (simp add: quietBlock_end_short)
  qed
qed

lemma drain_capacity: "capacity (audioBuffer (drain st)) = capacity (audioBuffer st)"
proof (induction st rule: drain.induct)
  case (1 st)
  show ?case
  proof (cases "running st \<and> availableToRead (audioBuffer st) > 0")
    case False
    then have "drain st = st"
      by (subst drain.simps) (rule if_not_P)
    then show ?thesis by simp
  next
    case True
    obtain ok bytes rb where
      r: "rb_read (availableToRead (audioBuffer st)) (audioBuffer st) = (ok, bytes, rb)"
      by (cases "rb_read (availableToRead (audioBuffer st)) (audioBuffer st)") auto
    define st1 where "st1 = (if ok then st\<lparr>audioBuffer := rb, taskQueue := taskQueue st @ [bytes]\<rparr>
                       else st\<lparr>audioBuffer := rb\<rparr>)"
    have cap: "capacity (audioBuffer st1) = capacity (audioBuffer st)"
      using r by (auto simp: st1_def rb_read_def split: if_splits)
    have step: "drain st = drain st1"
      using True r by (subst drain.simps) (simp add: st1_def)
    have "capacity (audioBuffer (drain st1)) = capacity (audioBuffer st1)"
      unfolding st1_def using "1.IH" [OF True r [symmetric] refl] .
    then show ?thesis using cap step by simp
  qed
qed

lemma Transcribe_audioBuffer:
  "audioBuffer (snd (TranscribeAudioNonBlocking whisper_full pcmf32 st)) = audioBuffer st"
  by (simp add: TranscribeAudioNonBlocking_def Let_def)

lemma task_audioBuffer: "audioBuffer (task whisper_full localAudioBuffer st) = audioBuffer st"
  by (simp add: task_def Transcribe_audioBuffer split: option.splits)

text \<open>
  Claim C6. Starting from an overflow count of zero, eleven consecutive calls of
  \<open>handleOverflow\<close> raise the ring buffer's capacity by \<open>kRingBufferSizeIncrement\<close> and
  leave the count at zero, while after any ten or fewer of them the capacity is unchanged
  and the count is the number of calls. No other operation enlarges the capacity:
  \<open>ProcessAudioBuffer\<close> changes it only by that increment, through \<open>handleOverflow\<close> at
  a count of ten, and the processing loop and the dispatched task leave it alone.
\<close>
theorem overflow_growth:
  "(overflowCount st = 0 \<longrightarrow>
      capacity (audioBuffer ((handleOverflow ^^ 11) st))
        = capacity (audioBuffer st) + kRingBufferSizeIncrement
      \<and> overflowCount ((handleOverflow ^^ 11) st) = 0
      \<and> (\<forall>k\<le>10. capacity (audioBuffer ((handleOverflow ^^ k) st)) = capacity (audioBuffer st)
                  \<and> overflowCount ((handleOverflow ^^ k) st) = k))
   \<and> (ProcessAudioBuffer avgAmplitude playoutBuffer st = Some st' \<longrightarrow>
        capacity (audioBuffer st') = capacity (audioBuffer st)
        \<or> (capacity (audioBuffer st') = capacity (audioBuffer st) + kRingBufferSizeIncrement
           \<and> 10 \<le> overflowCount st \<and> overflowCount st' = 0))
   \<and> capacity (audioBuffer (drain st)) = capacity (audioBuffer st)
   \<and> audioBuffer (task whisper_full localAudioBuffer st) = audioBuffer st"
proof -
  have iter: "overflowCount st = 0 \<Longrightarrow> k \<le> 10 \<Longrightarrow>
      (handleOverflow ^^ k) st = st\<lparr>overflowCount := k\<rparr>" for k
    by (simp add: handleOverflow_iterate)
  have eleven: "(handleOverflow ^^ 11) st = handleOverflow ((handleOverflow ^^ 10) st)"
    by (simp add: eval_nat_numeral)
  have grow: "overflowCount st = 0 \<Longrightarrow>
      (handleOverflow ^^ 11) st =
        st\<lparr>overflowCount := 0,
           audioBuffer := increaseWith kRingBufferSizeIncrement (audioBuffer st)\<rparr>"
    unfolding eleven by (simp add: iter handleOverflow_grow)
  have a: "overflowCount st = 0 \<longrightarrow>
      capacity (audioBuffer ((handleOverflow ^^ 11) st))
        = capacity (audioBuffer st) + kRingBufferSizeIncrement
      \<and> overflowCount ((handleOverflow ^^ 11) st) = 0
      \<and> (\<forall>k\<le>10. capacity (audioBuffer ((handleOverflow ^^ k) st)) = capacity (audioBuffer st)
                  \<and> overflowCount ((handleOverflow ^^ k) st) = k)"
    by (simp add: grow iter increaseWith_def)
  have sv: "audioBuffer (startVoice st) = audioBuffer st"
    "overflowCount (startVoice st) = overflowCount st"
    by (simp_all add: startVoice_def Let_def)
  have b: "ProcessAudioBuffer avgAmplitude playoutBuffer st = Some st' \<longrightarrow>
        capacity (audioBuffer st') = capacity (audioBuffer st)
        \<or> (capacity (audioBuffer st') = capacity (audioBuffer st) + kRingBufferSizeIncrement
           \<and> 10 \<le> overflowCount st \<and> overflowCount st' = 0)"
  proof
    assume run: "ProcessAudioBuffer avgAmplitude playoutBuffer st = Some st'"
    then have ev: "even (length playoutBuffer)"
      by (rule ProcessAudioBuffer_Some_even)
    show "capacity (audioBuffer st') = capacity (audioBuffer st)
        \<or> (capacity (audioBuffer st') = capacity (audioBuffer st) + kRingBufferSizeIncrement
           \<and> 10 \<le> overflowCount st \<and> overflowCount st' = 0)"
    proof (cases "voicePresent avgAmplitude (inVoiceSegment st)")
      case True
      then have "st' = accumulate playoutBuffer (startVoice st)"
        using run ProcessAudioBuffer_even [OF ev, of avgAmplitude st] by simp
      then show ?thesis
        using accumulate_capacity [of playoutBuffer "startVoice st"] by (simp add: sv)
    next
      case False
      then have "st' = quietBlock playoutBuffer st"
        using run ProcessAudioBuffer_even [OF ev, of avgAmplitude st] by simp
      then show ?thesis
        using quietBlock_capacity [of playoutBuffer st] by simp
    qed
  qed
  show ?thesis
    using a b by (simp add: drain_capacity task_audioBuffer)
qed


lemma constants:
  "kTargetSamples = 384000" "kRingBufferSizeIncrement = 960000" "kSampleRate = 16000"
  "kSilenceSamples = 16000"
  by (simp_all add: kTargetSamples_def kRingBufferSizeIncrement_def kSampleRate_def
      kTargetDurationSeconds_def kSilenceSamples_def)

theorem overflow_growth_witness:
  "overflowCount (constructed True) = 0
   \<and> capacity (audioBuffer (constructed True)) = 960000
   \<and> capacity (audioBuffer ((handleOverflow ^^ 11) (constructed True))) = 1920000
   \<and> overflowCount ((handleOverflow ^^ 11) (constructed True)) = 0
   \<and> (10 :: nat) \<le> 10
   \<and> capacity (audioBuffer ((handleOverflow ^^ 10) (constructed True))) = 960000
   \<and> overflowCount ((handleOverflow ^^ 10) (constructed True)) = 10
   \<and> ProcessAudioBuffer 10000 [0x10, 0x27] (constructed True) = Some voicedOnce
   \<and> capacity (audioBuffer voicedOnce) = capacity (audioBuffer (constructed True))
   \<and> overflowCount tenOverflows = 10
   \<and> capacity (audioBuffer tenOverflows) = 960000
   \<and> (\<exists>st'. ProcessAudioBuffer 257 (replicate 384000 1) tenOverflows = Some st'
          \<and> capacity (audioBuffer st') = 1920000 \<and> overflowCount st' = 0)"
proof -
  have t: "overflowCount tenOverflows = 10" "capacity (audioBuffer tenOverflows) = 960000"
    by (simp_all add: tenOverflows_def twoSegmentsQueued_def constants)
  have grown: "\<exists>st'. ProcessAudioBuffer 257 (replicate 384000 1) tenOverflows = Some st'
          \<and> capacity (audioBuffer st') = 1920000"
    by (simp add: ProcessAudioBuffer_even voicePresent_iff startVoice_def accumulate_def
        flush_def rb_write_def handleOverflow_def increaseWith_def Let_def
        tenOverflows_def twoSegmentsQueued_def constructed_def constants)
  then obtain st2 where
    g: "ProcessAudioBuffer 257 (replicate 384000 1) tenOverflows = Some st2"
      "capacity (audioBuffer st2) = 1920000"
    by blast
  have z: "overflowCount (constructed True) = 0"
    "capacity (audioBuffer (constructed True)) = 960000"
    by (simp_all add: constructed_def constants)
  have run: "ProcessAudioBuffer 10000 [0x10, 0x27] (constructed True) = Some voicedOnce"
    by (simp add: voicedOnce_eq ProcessAudioBuffer_even voicePresent_iff startVoice_def
        accumulate_def constructed_def constants)
  have cap: "capacity (audioBuffer voicedOnce) = capacity (audioBuffer (constructed True))"
    by (simp add: voicedOnce_eq)
  have "overflowCount st2 = 0"
    using overflow_growth [of tenOverflows 257 "replicate 384000 1" st2] g t
    by (simp add: constants)
  then show ?thesis
    using overflow_growth [of "constructed True" 10000 "[0x10, 0x27]" voicedOnce] z run cap t g
    by (simp add: constants)
qed

section \<open>The single-flight guard and the input validation\<close>

lemma float_eq_self: "float_eq s s \<longleftrightarrow> s \<noteq> NaN"
  by (cases s) simp_all

lemma invalidSample_iff: "invalidSample s \<longleftrightarrow> s = NaN \<or> float_gt (float_abs s) (Finite 1)"
  by (simp add: invalidSample_def float_eq_self)

lemma validInput_iff: "validInput pcmf32 \<longleftrightarrow> (\<forall>s\<in>set pcmf32. \<not> invalidSample s)"
  by (induction pcmf32) simp_all

lemma Transcribe_busy:
  "processingActive st \<Longrightarrow> TranscribeAudioNonBlocking whisper_full pcmf32 st = (False, st)"
  by (simp add: TranscribeAudioNonBlocking_def)

lemma Transcribe_releases:
  "\<not> processingActive st \<Longrightarrow>
   \<not> processingActive (snd (TranscribeAudioNonBlocking whisper_full pcmf32 st))"
  by (simp add: TranscribeAudioNonBlocking_def Let_def)

lemma Transcribe_accepts:
  assumes "\<not> processingActive st" and "whisperContext st"
    and "kSampleRate \<le> length pcmf32" and "length pcmf32 \<le> kTargetSamples"
    and "validInput pcmf32"
  shows "TranscribeAudioNonBlocking whisper_full pcmf32 st =
           (whisper_full pcmf32 = 0, st\<lparr>engineCalls := engineCalls st @ [pcmf32]\<rparr>)"
proof -
  have "pcmf32 \<noteq> []"
    using assms(3) by (auto simp: kSampleRate_def)
  then show ?thesis
    using assms by (simp add: TranscribeAudioNonBlocking_def Let_def not_less)
qed

lemma Transcribe_rejects:
  assumes "length pcmf32 < kSampleRate \<or> kTargetSamples < length pcmf32 \<or> \<not> validInput pcmf32"
  shows "fst (TranscribeAudioNonBlocking whisper_full pcmf32 st) = False"
    and "engineCalls (snd (TranscribeAudioNonBlocking whisper_full pcmf32 st)) = engineCalls st"
  using assms by (auto simp add: TranscribeAudioNonBlocking_def Let_def)

text \<open>
  Claim C7. Entered with \<open>processingActive\<close> already set, \<open>TranscribeAudioNonBlocking\<close>
  returns false and changes nothing: the engine is not called and the flag stays with
  its holder. Entered with the flag clear, it leaves the flag clear on return, whatever
  the input and whatever the engine answers.
\<close>
theorem single_flight_guard:
  "(processingActive st \<longrightarrow>
      TranscribeAudioNonBlocking whisper_full pcmf32 st = (False, st)
      \<and> engineCalls (snd (TranscribeAudioNonBlocking whisper_full pcmf32 st)) = engineCalls st)
   \<and> (\<not> processingActive st \<longrightarrow>
        \<not> processingActive (snd (TranscribeAudioNonBlocking whisper_full pcmf32 st)))"
  by (simp add: Transcribe_busy Transcribe_releases)

theorem single_flight_guard_witness:
  "processingActive busy
   \<and> TranscribeAudioNonBlocking engineOk (replicate 16000 (Finite 0)) busy = (False, busy)
   \<and> engineCalls busy = []
   \<and> \<not> processingActive (constructed True)
   \<and> TranscribeAudioNonBlocking engineOk (replicate 16000 (Finite 0)) (constructed True)
       = (True, (constructed True)\<lparr>engineCalls := [replicate 16000 (Finite 0)]\<rparr>)
   \<and> TranscribeAudioNonBlocking engineFails (replicate 16000 (Finite 0)) (constructed True)
       = (False, (constructed True)\<lparr>engineCalls := [replicate 16000 (Finite 0)]\<rparr>)
   \<and> \<not> processingActive (snd (TranscribeAudioNonBlocking engineOk (replicate 16000 (Finite 0))
         (constructed True)))
   \<and> \<not> processingActive (snd (TranscribeAudioNonBlocking engineFails (replicate 16000 (Finite 0))
         (constructed True)))"
proof -
  have b: "processingActive busy" "engineCalls busy = []"
    by (simp_all add: busy_def constructed_def)
  have c: "\<not> processingActive (constructed True)" "whisperContext (constructed True)"
    "engineCalls (constructed True) = []"
    by (simp_all add: constructed_def)
  have v: "validInput (replicate 16000 (Finite 0))"
    by (simp add: validInput_iff invalidSample_iff)
  have r: "TranscribeAudioNonBlocking engine (replicate 16000 (Finite 0)) (constructed True)
       = (engine (replicate 16000 (Finite 0)) = 0,
          (constructed True)\<lparr>engineCalls := [replicate 16000 (Finite 0)]\<rparr>)" for engine
    using Transcribe_accepts [OF c(1,2) _ _ v, of engine] by (simp add: constants c)
  show ?thesis
    using single_flight_guard [of busy engineOk "replicate 16000 (Finite 0)"]
      single_flight_guard [of "constructed True" engineOk "replicate 16000 (Finite 0)"]
      single_flight_guard [of "constructed True" engineFails "replicate 16000 (Finite 0)"]
      b c
    by (simp add: r engineOk_def engineFails_def)
qed

text \<open>
  Claim C8. A block of fewer than 16000 or more than 384000 samples, or one holding a
  sample that is not a number or whose absolute value exceeds 1, is rejected:
  \<open>TranscribeAudioNonBlocking\<close> returns false and the engine is not called.
\<close>
theorem input_validation_rejects:
  assumes "length pcmf32 < 16000 \<or> 384000 < length pcmf32
           \<or> (\<exists>s\<in>set pcmf32. s = NaN \<or> float_gt (float_abs s) (Finite 1))"
  shows "fst (TranscribeAudioNonBlocking whisper_full pcmf32 st) = False
         \<and> engineCalls (snd (TranscribeAudioNonBlocking whisper_full pcmf32 st)) = engineCalls st"
proof -
  have "length pcmf32 < kSampleRate \<or> kTargetSamples < length pcmf32 \<or> \<not> validInput pcmf32"
    using assms by (auto simp add: constants validInput_iff invalidSample_iff)
  then show ?thesis
    by (simp add: Transcribe_rejects)
qed

theorem input_validation_rejects_witness:
  "length (replicate 15999 (Finite 0)) < 16000
   \<and> fst (TranscribeAudioNonBlocking engineOk (replicate 15999 (Finite 0)) (constructed True)) = False
   \<and> engineCalls (snd (TranscribeAudioNonBlocking engineOk (replicate 15999 (Finite 0))
        (constructed True))) = []
   \<and> 384000 < length (replicate 384001 (Finite 0))
   \<and> fst (TranscribeAudioNonBlocking engineOk (replicate 384001 (Finite 0)) (constructed True)) = False
   \<and> length (replicate 15999 (Finite 0) @ [NaN]) = 16000
   \<and> NaN \<in> set (replicate 15999 (Finite 0) @ [NaN])
   \<and> fst (TranscribeAudioNonBlocking engineOk (replicate 15999 (Finite 0) @ [NaN])
        (constructed True)) = False
   \<and> Finite (-2) \<in> set (replicate 15999 (Finite 0) @ [Finite (-2)])
   \<and> float_gt (float_abs (Finite (-2))) (Finite 1)
   \<and> fst (TranscribeAudioNonBlocking engineOk (replicate 15999 (Finite 0) @ [Finite (-2)])
        (constructed True)) = False
   \<and> engineCalls (snd (TranscribeAudioNonBlocking engineOk (replicate 15999 (Finite 0) @ [Finite (-2)])
        (constructed True))) = []"
proof -
  have c: "engineCalls (constructed True) = []"
    by (simp add: constructed_def)
  show ?thesis
    using input_validation_rejects [of "replicate 15999 (Finite 0)" engineOk "constructed True"]
      input_validation_rejects [of "replicate 384001 (Finite 0)" engineOk "constructed True"]
      input_validation_rejects [of "replicate 15999 (Finite 0) @ [NaN]" engineOk "constructed True"]
      input_validation_rejects [of "replicate 15999 (Finite 0) @ [Finite (-2)]" engineOk
        "constructed True"]
    by (simp add: c)
qed


section \<open>The conversion done by the dispatched task\<close>

lemma pcmf32_of_pair:
  "pcmf32_of (lo # hi # rest) =
     map_option ((#) (Finite (real_of_int (sint (word_cat hi lo :: int16)) / 32768)))
       (pcmf32_of rest)"
  by (cases "int16Buffer_of rest") (simp_all add: pcmf32_of_def normalize_def pcm16_word_cat)

lemma pcmf32_of_even:
  "even (length bytes) \<Longrightarrow>
   \<exists>pcmf32. pcmf32_of bytes = Some pcmf32 \<and> length pcmf32 = length bytes div 2"
  using int16Buffer_of_even [of bytes] by (auto simp add: pcmf32_of_def)

text \<open>
  Claim C9. The dispatched task reads its byte block two bytes at a time as little-endian
  signed 16-bit samples and divides each by 32768: the bytes 0x00, 0x80 give exactly -1
  and the bytes 0xFF, 0x7F give 32767/32768. A non-empty block of even length, with a
  model loaded, yields half as many samples as bytes, and these are what the task passes
  to \<open>TranscribeAudioNonBlocking\<close>.
\<close>
theorem pcm16_to_float:
  "pcmf32_of [0x00, 0x80] = Some [Finite (- 1)]
   \<and> pcmf32_of [0xFF, 0x7F] = Some [Finite (32767 / 32768)]
   \<and> pcmf32_of (lo # hi # rest) =
       map_option ((#) (Finite (real_of_int (sint (word_cat hi lo :: int16)) / 32768)))
         (pcmf32_of rest)
   \<and> (whisperContext st \<and> localAudioBuffer \<noteq> [] \<and> even (length localAudioBuffer) \<longrightarrow>
        (\<exists>pcmf32. pcmf32_of localAudioBuffer = Some pcmf32
           \<and> length pcmf32 = length localAudioBuffer div 2
           \<and> task whisper_full localAudioBuffer st =
               snd (TranscribeAudioNonBlocking whisper_full pcmf32 st)))"
proof -
  have a: "pcmf32_of [0x00, 0x80] = Some [Finite (- 1)]"
    by (simp add: pcmf32_of_def normalize_def pcm16_sample_def)
  have b: "pcmf32_of [0xFF, 0x7F] = Some [Finite (32767 / 32768)]"
    by (simp add: pcmf32_of_def normalize_def pcm16_sample_def)
  have d: "whisperContext st \<and> localAudioBuffer \<noteq> [] \<and> even (length localAudioBuffer) \<longrightarrow>
        (\<exists>pcmf32. pcmf32_of localAudioBuffer = Some pcmf32
           \<and> length pcmf32 = length localAudioBuffer div 2
           \<and> task whisper_full localAudioBuffer st =
               snd (TranscribeAudioNonBlocking whisper_full pcmf32 st))"
  proof
    assume h: "whisperContext st \<and> localAudioBuffer \<noteq> [] \<and> even (length localAudioBuffer)"
    then obtain pcmf32 where p: "pcmf32_of localAudioBuffer = Some pcmf32"
      "length pcmf32 = length localAudioBuffer div 2"
      using pcmf32_of_even [of localAudioBuffer] by blast
    have "task whisper_full localAudioBuffer st =
        snd (TranscribeAudioNonBlocking whisper_full pcmf32 st)"
      using h p(1) by (simp add: task_def)
    then show "\<exists>pcmf32. pcmf32_of localAudioBuffer = Some pcmf32
           \<and> length pcmf32 = length localAudioBuffer div 2
           \<and> task whisper_full localAudioBuffer st =
               snd (TranscribeAudioNonBlocking whisper_full pcmf32 st)"
      using p by blast
  qed
  show ?thesis
    using a b d pcmf32_of_pair [of lo hi rest] by blast
qed

theorem pcm16_to_float_witness:
  "whisperContext (constructed True) \<and> [0x00, 0x80 :: uint8] \<noteq> []
   \<and> even (length [0x00, 0x80 :: uint8])
   \<and> pcmf32_of [0x00, 0x80] = Some [Finite (- 1)]
   \<and> length [Finite (- 1)] = length [0x00, 0x80 :: uint8] div 2
   \<and> task engineOk [0x00, 0x80] (constructed True) =
       snd (TranscribeAudioNonBlocking engineOk [Finite (- 1)] (constructed True))"
proof -
  have c: "whisperContext (constructed True)"
    by (simp add: constructed_def)
  have a: "pcmf32_of [0x00, 0x80] = Some [Finite (- 1)]"
    using pcm16_to_float [of 0 0 "[]" "constructed True" "[0x00, 0x80]" engineOk] by blast
  have "\<exists>pcmf32. pcmf32_of [0x00, 0x80] = Some pcmf32
      \<and> task engineOk [0x00, 0x80] (constructed True) =
          snd (TranscribeAudioNonBlocking engineOk pcmf32 (constructed True))"
    using pcm16_to_float [of 0 0 "[]" "constructed True" "[0x00, 0x80]" engineOk] c by auto
  then have "task engineOk [0x00, 0x80] (constructed True) =
      snd (TranscribeAudioNonBlocking engineOk [Finite (- 1)] (constructed True))"
    unfolding a by blast
  then show ?thesis
    using a c by simp
qed

section \<open>The processing thread after the running flag is cleared\<close>

lemma processingThread_Some:
  assumes "processingThread st = Some st'"
  shows False
proof (rule processingThread.raw_induct [where P = "\<lambda>_ _. False", OF _ assms])
  fix loop :: "WhisperTranscriber \<Rightarrow> WhisperTranscriber option" and s s'
  assume IH: "\<And>x y. loop x = Some y \<Longrightarrow> False"
    and body: "(case RunProcessingThread s of
                  (continue, st') \<Rightarrow> if continue then loop st' else Some st') = Some s'"
  from body have "loop (drain s) = Some s'"
    by (simp add: RunProcessingThread_def)
  then show False by (rule IH)
qed

lemma processingThread_None: "processingThread st = None"
  using processingThread_Some [of st] by (cases "processingThread st") auto

text \<open>
  Claim C10, which the code does not meet. With the running flag cleared,
  \<open>RunProcessingThread\<close> skips its loop and returns true, so the thread body calls it
  again without end: the thread never exits and \<open>Stop\<close> never returns from its join.
\<close>
theorem processing_thread_never_exits:
  "fst (RunProcessingThread (st\<lparr>running := False\<rparr>))
   \<and> snd (RunProcessingThread (st\<lparr>running := False\<rparr>)) = st\<lparr>running := False\<rparr>
   \<and> processingThread (st\<lparr>running := False\<rparr>) = None
   \<and> Stop (st\<lparr>running := True\<rparr>) = None"
proof -
  have "drain (st\<lparr>running := False\<rparr>) = st\<lparr>running := False\<rparr>"
    by (subst drain.simps) simp
  then show ?thesis
    by (simp add: RunProcessingThread_def processingThread_None Stop_def)
qed

end
